theory Spec2Isabelle
  imports Main "HOL-Library.Word" "HOL-Library.AList"
begin

unbundle bit_operations_syntax

section \<open>The MongoDB wallet of lib/wallet.js\<close>

text \<open>
  The class \<open>MongoDBWallet\<close> keeps named credentials (strings or byte buffers) as
  documents of one MongoDB collection, which it reaches through a Mongoose model
  (\<open>this.wallet\<close>). The embedding below has three layers:
  \<^item> the values of JavaScript that reach the class (\<open>jsvalue\<close>, \<open>error\<close>);
  \<^item> the collection and the four model calls the class issues (\<open>update\<close> with
    \<open>upsert\<close> and \<open>overwrite\<close>, \<open>remove\<close>, \<open>find\<close>, \<open>findOne\<close>), together with
    Node's base64 codec of \<open>Buffer\<close>: these are library code, modelled by what they
    do to a sequence of documents;
  \<^item> the methods of the class, line by line.
  Every method is a function from the collection to a result and the collection
  afterwards; a rejected promise or a throw is \<open>Inl\<close> of the error.
\<close>

subsection \<open>Values and errors\<close>

type_synonym byte = "8 word"

text \<open>
  The text of a JavaScript string value: a sequence of UTF-16 code units, of which any
  may be a surrogate with no partner. \<open>ascii\<close> gives the code units of a text of
  ASCII characters.
\<close>

type_synonym jsstring = "16 word list"

definition ascii :: "string \<Rightarrow> jsstring" where
  "ascii s = map of_char s"

text \<open>
  A value handed to \<open>put\<close>. \<open>JString\<close> is a primitive string (\<open>typeof v === 'string'\<close>),
  \<open>JStringObject\<close> a wrapper object (\<open>v instanceof String\<close>), \<open>JBuffer\<close> a Node
  \<open>Buffer\<close>; the remaining constructors stand for everything else (\<open>JObject\<close>
  carries the name of the object's class).
\<close>

datatype jsvalue =
    JBuffer "byte list"
  | JString jsstring
  | JStringObject jsstring
  | JUndefined
  | JNull
  | JBoolean bool
  | JNumber int
  | JObject string

text \<open>Every failure of the class is a plain \<open>new Error(message)\<close>.\<close>

datatype error = Error string

text \<open>
  JavaScript's \<open>!x\<close> on an optional string: \<open>None\<close> is an absent one (\<open>undefined\<close>
  or \<open>null\<close>), and the empty string is falsy too.
\<close>

definition falsy :: "string option \<Rightarrow> bool" where
  "falsy x = (x = None \<or> x = Some [])"

text \<open>
  The guard \<open>if (!x) { throw new Error(msg) }\<close> (or the rejection with it): the error
  when \<open>x\<close> is falsy, otherwise the string that the code goes on with.
\<close>

definition required :: "string \<Rightarrow> string option \<Rightarrow> error + string" where
  "required msg x =
     (case x of
        None \<Rightarrow> Inl (Error msg)
      | Some s \<Rightarrow> if s = [] then Inl (Error msg) else Inr s)"

subsection \<open>Construction\<close>

text \<open>
  The options object; each of its properties may be absent. \<open>driverOptions\<close> is the
  property \<open>options\<close>, handed to the driver as it is.
\<close>

record config =
  uri :: "string option"
  collectionName :: "string option"
  namePrefix :: "string option"
  driverOptions :: "(string \<times> string) list"

text \<open>
  The instance: \<open>this.mongodbConfig\<close> and \<open>this.namePrefix\<close>. The connection and the
  model built from it are the collection that every method below takes and returns.
\<close>

record wallet =
  mongodbConfig :: config
  this_namePrefix :: string

definition constructor :: "config option \<Rightarrow> error + wallet" where
  "constructor options =
     (case options of
        None \<Rightarrow> Inl (Error ''Need configuration'')
      | Some opts \<Rightarrow>
          (case required ''Need an URI to connect to MongoDB'' (uri opts) of
             Inl e \<Rightarrow> Inl e
           | Inr u \<Rightarrow>
          (case required ''Need a collection name for the wallet'' (collectionName opts) of
             Inl e \<Rightarrow> Inl e
           | Inr n \<Rightarrow>
          (case required ''Need a namePrefix in options'' (namePrefix opts) of
             Inl e \<Rightarrow> Inl e
           | Inr p \<Rightarrow> Inr \<lparr> mongodbConfig = opts, this_namePrefix = p \<rparr>))))"

subsection \<open>The collection\<close>

text \<open>
  A document of the collection, with the four paths of the schema. Only \<open>name\<close> and
  \<open>path\<close> are required by it: each value field may be absent, and nothing in the
  schema keeps both from being there. \<open>valueString\<close> holds a value as JavaScript reads
  it; names, prefixes and base64 text are taken as the text the store holds.
\<close>

record card =
  name :: string
  path :: string
  valueBase64 :: "string option"
  valueString :: "jsstring option"

text \<open>
  The store keeps text as UTF-8. The driver encodes a JavaScript string on the way in
  and decodes it on the way out, and a surrogate code unit that is not part of a pair
  (a high one followed by a low one) has no UTF-8 form: it is written as U+FFFD. What
  comes back for a string is therefore \<open>toWellFormed\<close> of it; it is the string itself
  exactly when the string \<open>isWellFormed\<close>.
\<close>

definition isHighSurrogate :: "16 word \<Rightarrow> bool" where
  "isHighSurrogate u = (0xD800 \<le> u \<and> u \<le> 0xDBFF)"

definition isLowSurrogate :: "16 word \<Rightarrow> bool" where
  "isLowSurrogate u = (0xDC00 \<le> u \<and> u \<le> 0xDFFF)"

fun toWellFormed :: "jsstring \<Rightarrow> jsstring" where
  "toWellFormed [] = []"
| "toWellFormed [u] = (if isHighSurrogate u \<or> isLowSurrogate u then [0xFFFD] else [u])"
| "toWellFormed (u # v # rest) =
     (if isHighSurrogate u \<and> isLowSurrogate v then u # v # toWellFormed rest
      else if isHighSurrogate u \<or> isLowSurrogate u then 0xFFFD # toWellFormed (v # rest)
      else u # toWellFormed (v # rest))"

fun isWellFormed :: "jsstring \<Rightarrow> bool" where
  "isWellFormed [] = True"
| "isWellFormed [u] = (\<not> (isHighSurrogate u \<or> isLowSurrogate u))"
| "isWellFormed (u # v # rest) =
     (if isHighSurrogate u \<and> isLowSurrogate v then isWellFormed rest
      else if isHighSurrogate u \<or> isLowSurrogate u then False
      else isWellFormed (v # rest))"

text \<open>A document as the store holds it once written.\<close>

definition stored :: "card \<Rightarrow> card" where
  "stored doc = doc\<lparr> valueString := map_option toWellFormed (valueString doc) \<rparr>"

text \<open>
  The collection is the sequence of its documents in the store's order. It has no
  unique index, so the type does not rule out two documents with one name and path.
\<close>

type_synonym collection = "card list"

text \<open>The two shapes of filter the class writes: \<open>{name, path}\<close> and \<open>{path}\<close>.\<close>

datatype query = NameAndPath string string | PathOnly string

fun matches :: "query \<Rightarrow> card \<Rightarrow> bool" where
  "matches (NameAndPath n p) d = (name d = n \<and> path d = p)"
| "matches (PathOnly p) d = (path d = p)"

text \<open>
  \<open>Model.update(filter, doc, {upsert: true, overwrite: true})\<close>: the first document
  that matches is replaced by \<open>doc\<close> as a whole (no \<open>$set\<close>, and no \<open>multi\<close>); when
  none matches, \<open>doc\<close> is inserted. Either way the collection holds \<open>doc\<close> as the
  store writes it.
\<close>

fun wallet_update :: "query \<Rightarrow> card \<Rightarrow> collection \<Rightarrow> collection" where
  "wallet_update f doc [] = [stored doc]"
| "wallet_update f doc (d # ds) =
     (if matches f d then stored doc # ds else d # wallet_update f doc ds)"

text \<open>\<open>Model.remove(filter)\<close> deletes every document that matches.\<close>

definition wallet_remove :: "query \<Rightarrow> collection \<Rightarrow> collection" where
  "wallet_remove f c = filter (\<lambda>d. \<not> matches f d) c"

text \<open>\<open>Model.find(filter)\<close> gives the matching documents, in the store's order.\<close>

definition wallet_find :: "query \<Rightarrow> collection \<Rightarrow> card list" where
  "wallet_find f c = filter (matches f) c"

text \<open>\<open>Model.findOne(filter)\<close> gives the first matching document, or \<open>null\<close>.\<close>

definition wallet_findOne :: "query \<Rightarrow> collection \<Rightarrow> card option" where
  "wallet_findOne f c = find (matches f) c"

subsection \<open>Base64 of a Buffer\<close>

text \<open>
  \<open>buf.toString('base64')\<close> and \<open>Buffer.from(s, 'base64')\<close>, as Node implements them:
  the encoder takes three bytes to four characters of the standard alphabet and pads
  the last group with \<open>=\<close>; the decoder skips every character outside the alphabet
  (it also reads the URL-safe \<open>-\<close> and \<open>_\<close>), stops at the first \<open>=\<close> and drops an
  incomplete trailing group.
\<close>

definition table :: string where
  "table = ''ABCDEFGHIJKLMNOPQRSTUVWXYZabcdefghijklmnopqrstuvwxyz0123456789+/''"

definition b64char :: "byte \<Rightarrow> char" where
  "b64char v = table ! unat v"

fun base64_encode :: "byte list \<Rightarrow> string" where
  "base64_encode (a # b # c # rest) =
     b64char (drop_bit 2 a)
     # b64char (push_bit 4 (a AND 3) OR drop_bit 4 b)
     # b64char (push_bit 2 (b AND 15) OR drop_bit 6 c)
     # b64char (c AND 63)
     # base64_encode rest"
| "base64_encode [a, b] =
     [b64char (drop_bit 2 a),
      b64char (push_bit 4 (a AND 3) OR drop_bit 4 b),
      b64char (push_bit 2 (b AND 15)),
      CHR ''='']"
| "base64_encode [a] =
     [b64char (drop_bit 2 a), b64char (push_bit 4 (a AND 3)), CHR ''='', CHR ''='']"
| "base64_encode [] = []"

definition unbase64 :: "char \<Rightarrow> byte option" where
  "unbase64 c =
     (let n = (of_char c :: nat) in
      if 65 \<le> n \<and> n \<le> 90 then Some (of_nat (n - 65))
      else if 97 \<le> n \<and> n \<le> 122 then Some (of_nat (n - 71))
      else if 48 \<le> n \<and> n \<le> 57 then Some (of_nat (n + 4))
      else if c = CHR ''+'' \<or> c = CHR ''-'' then Some 62
      else if c = CHR ''/'' \<or> c = CHR ''_'' then Some 63
      else None)"

fun sextets :: "string \<Rightarrow> byte list" where
  "sextets [] = []"
| "sextets (c # cs) =
     (if c = CHR ''='' then []
      else case unbase64 c of None \<Rightarrow> sextets cs | Some v \<Rightarrow> v # sextets cs)"

fun decode_groups :: "byte list \<Rightarrow> byte list" where
  "decode_groups (s0 # s1 # s2 # s3 # rest) =
     (push_bit 2 (s0 AND 63) OR drop_bit 4 (s1 AND 48))
     # (push_bit 4 (s1 AND 15) OR drop_bit 2 (s2 AND 60))
     # (push_bit 6 (s2 AND 3) OR (s3 AND 63))
     # decode_groups rest"
| "decode_groups [s0, s1, s2] =
     [push_bit 2 (s0 AND 63) OR drop_bit 4 (s1 AND 48),
      push_bit 4 (s1 AND 15) OR drop_bit 2 (s2 AND 60)]"
| "decode_groups [s0, s1] = [push_bit 2 (s0 AND 63) OR drop_bit 4 (s1 AND 48)]"
| "decode_groups [s0] = []"
| "decode_groups [] = []"

definition base64_decode :: "string \<Rightarrow> byte list" where
  "base64_decode s = decode_groups (sextets s)"

subsection \<open>The methods\<close>

text \<open>
  A method takes the collection and gives what its promise settles with (\<open>Inl\<close> a
  rejection, \<open>Inr\<close> the value) together with the collection afterwards.
\<close>

type_synonym 'a promise = "(error + 'a) \<times> collection"

text \<open>
  \<open>put\<close>: the name guard, then the card with the field that fits the value's type,
  then the upsert. A wrapper object is stored as the string it wraps, as the schema
  type \<open>String\<close> of \<open>valueString\<close> casts it. The rejections return before the
  model is touched.
\<close>

definition put :: "wallet \<Rightarrow> string option \<Rightarrow> jsvalue \<Rightarrow> collection \<Rightarrow> unit promise" where
  "put this nm v c =
     (case required ''Name must be specified'' nm of
        Inl e \<Rightarrow> (Inl e, c)
      | Inr n \<Rightarrow>
          (let crd = \<lparr> name = n, path = this_namePrefix this,
                        valueBase64 = None, valueString = None \<rparr>;
               f = NameAndPath n (this_namePrefix this)
           in case v of
                JBuffer b \<Rightarrow>
                  (Inr (), wallet_update f (crd\<lparr> valueBase64 := Some (base64_encode b) \<rparr>) c)
              | JString s \<Rightarrow>
                  (Inr (), wallet_update f (crd\<lparr> valueString := Some s \<rparr>) c)
              | JStringObject s \<Rightarrow>
                  (Inr (), wallet_update f (crd\<lparr> valueString := Some s \<rparr>) c)
              | _ \<Rightarrow> (Inl (Error ''Unkown type being stored''), c)))"

definition remove :: "wallet \<Rightarrow> string option \<Rightarrow> collection \<Rightarrow> unit promise" where
  "remove this nm c =
     (case required ''Name must be specified'' nm of
        Inl e \<Rightarrow> (Inl e, c)
      | Inr n \<Rightarrow> (Inr (), wallet_remove (NameAndPath n (this_namePrefix this)) c))"

definition listNames :: "wallet \<Rightarrow> collection \<Rightarrow> (string list) promise" where
  "listNames this c = (Inr (map name (wallet_find (PathOnly (this_namePrefix this)) c)), c)"


text \<open>
  \<open>get\<close>: the name guard, the lookup, then the decoding, which asks for
  \<open>valueBase64\<close> first and for \<open>valueString\<close> only when that is absent.
\<close>

definition get :: "wallet \<Rightarrow> string option \<Rightarrow> collection \<Rightarrow> jsvalue promise" where
  "get this nm c =
     (case required ''Name must be specified'' nm of
        Inl e \<Rightarrow> (Inl e, c)
      | Inr n \<Rightarrow>
          (case wallet_findOne (NameAndPath n (this_namePrefix this)) c of
             None \<Rightarrow> (Inl (Error ''The specified key does not exist''), c)
           | Some crd \<Rightarrow>
               (case valueBase64 crd of
                  Some b64 \<Rightarrow> (Inr (JBuffer (base64_decode b64)), c)
                | None \<Rightarrow>
                    (case valueString crd of
                       Some s \<Rightarrow> (Inr (JString s), c)
                     | None \<Rightarrow> (Inl (Error ''Unkown type being stored''), c)))))"

text \<open>
  \<open>getAll\<close>: the names, then one \<open>get\<close> per name in a loop that stops at the first
  rejection. \<open>results\<close> is the \<open>Map\<close>, in insertion order: \<open>set\<close> on a key that is
  already there replaces its value in place, which is \<open>AList.update\<close>.
\<close>

fun getAll_loop ::
  "wallet \<Rightarrow> string list \<Rightarrow> (string \<times> jsvalue) list \<Rightarrow> collection
     \<Rightarrow> ((string \<times> jsvalue) list) promise" where
  "getAll_loop this [] results c = (Inr results, c)"
| "getAll_loop this (key # keys) results c =
     (case get this (Some key) c of
        (Inl e, c') \<Rightarrow> (Inl e, c')
      | (Inr v, c') \<Rightarrow> getAll_loop this keys (AList.update key v results) c')"

definition getAll :: "wallet \<Rightarrow> collection \<Rightarrow> ((string \<times> jsvalue) list) promise" where
  "getAll this c =
     (case listNames this c of
        (Inl e, c') \<Rightarrow> (Inl e, c')
      | (Inr keys, c') \<Rightarrow> getAll_loop this keys [] c')"

subsection \<open>Vocabulary of the properties\<close>

text \<open>
  The two tests of \<open>put\<close> on its value: \<open>value instanceof Buffer\<close>, and
  \<open>value instanceof String || typeof value === 'string'\<close>.
\<close>

definition isBuffer :: "jsvalue \<Rightarrow> bool" where
  "isBuffer v = (case v of JBuffer b \<Rightarrow> True | _ \<Rightarrow> False)"

definition isString :: "jsvalue \<Rightarrow> bool" where
  "isString v = (case v of JString s \<Rightarrow> True | JStringObject s \<Rightarrow> True | _ \<Rightarrow> False)"


text \<open>
  What \<open>get\<close> returns for a value that \<open>put\<close> has stored: a buffer as it is, a
  string as the store keeps its text, and always as a primitive string.
\<close>

fun read_back :: "jsvalue \<Rightarrow> jsvalue" where
  "read_back (JString s) = JString (toWellFormed s)"
| "read_back (JStringObject s) = JString (toWellFormed s)"
| "read_back v = v"

text \<open>The card that \<open>put\<close> leaves in the collection for a value it accepts.\<close>

fun holds :: "card \<Rightarrow> jsvalue \<Rightarrow> bool" where
  "holds doc (JBuffer b) = (valueBase64 doc = Some (base64_encode b) \<and> valueString doc = None)"
| "holds doc (JString s) = (valueString doc = Some (toWellFormed s) \<and> valueBase64 doc = None)"
| "holds doc (JStringObject s) = (valueString doc = Some (toWellFormed s) \<and> valueBase64 doc = None)"
| "holds doc v = False"


text \<open>
  The two methods that write, as data, so that a property can speak about any sequence
  of writes, by any instance: \<open>perform\<close> is the collection after the call,
  \<open>writes_key op k p\<close> says that the call is made for the name \<open>k\<close> by an instance of
  prefix \<open>p\<close>, and \<open>writer\<close> is the instance that makes it.
\<close>

datatype mutation = Put wallet "string option" jsvalue | Remove wallet "string option"

fun perform :: "mutation \<Rightarrow> collection \<Rightarrow> collection" where
  "perform (Put w nm v) c = snd (put w nm v c)"
| "perform (Remove w nm) c = snd (remove w nm c)"

fun writes_key :: "mutation \<Rightarrow> string \<Rightarrow> string \<Rightarrow> bool" where
  "writes_key (Put w nm v) k p = (nm = Some k \<and> this_namePrefix w = p)"
| "writes_key (Remove w nm) k p = (nm = Some k \<and> this_namePrefix w = p)"





text \<open>
  Two conditions on a collection that the schema does not enforce and the writes of the
  class keep: no two documents share name and path, and every document has a name and
  at least one of the value fields.
\<close>

definition unique_keys :: "collection \<Rightarrow> bool" where
  "unique_keys c = distinct (map (\<lambda>d. (name d, path d)) c)"

definition has_value :: "card \<Rightarrow> bool" where
  "has_value d = (name d \<noteq> [] \<and> (valueBase64 d \<noteq> None \<or> valueString d \<noteq> None))"

definition well_formed :: "collection \<Rightarrow> bool" where
  "well_formed c = list_all has_value c"


subsection \<open>Example data\<close>

text \<open>
  The configuration of the repository's tests, two instances over it with the
  prefixes \<open>alpha\<close> and \<open>beta\<close>, and a collection with documents of both.
\<close>

definition testConfig :: config where
  "testConfig = \<lparr> uri = Some ''mongodb://localhost:27017/testWallletCollection'',
                  collectionName = Some ''testWallet'', namePrefix = None, driverOptions = [] \<rparr>"

definition walletAlpha :: wallet where
  "walletAlpha = \<lparr> mongodbConfig = testConfig\<lparr> namePrefix := Some ''alpha'' \<rparr>,
                   this_namePrefix = ''alpha'' \<rparr>"

definition walletBeta :: wallet where
  "walletBeta = \<lparr> mongodbConfig = testConfig\<lparr> namePrefix := Some ''beta'' \<rparr>,
                  this_namePrefix = ''beta'' \<rparr>"

definition twoQuotes :: collection where
  "twoQuotes =
     [\<lparr> name = ''Batman-Original'', path = ''alpha'', valueBase64 = None, valueString = Some (ascii ''Breathe'') \<rparr>,
      \<lparr> name = ''Batman-Original'', path = ''beta'', valueBase64 = None, valueString = Some (ascii ''other'') \<rparr>,
      \<lparr> name = ''Batman-Reloaded'', path = ''alpha'', valueBase64 = Some ''AQID'', valueString = None \<rparr>]"


section \<open>Base64 decodes what it encoded\<close>

text \<open>Two bytes are equal when their eight bits are.\<close>

lemma byte_eqI:
  fixes x y :: byte
  assumes "bit x 0 = bit y 0" "bit x 1 = bit y 1" "bit x 2 = bit y 2" "bit x 3 = bit y 3"
    "bit x 4 = bit y 4" "bit x 5 = bit y 5" "bit x 6 = bit y 6" "bit x 7 = bit y 7"
  shows "x = y"
proof (rule bit_word_eqI)
  fix n assume "n < LENGTH(8)"
  then have "n \<in> {0, 1, 2, 3, 4, 5, 6, 7}" by auto
  then show "bit x n = bit y n"
    using assms by auto
qed

lemma byte_high: "8 \<le> n \<Longrightarrow> bit (a::byte) n = False"
  using bit_imp_le_length [of a n] by auto


text \<open>Every index the encoder computes is a sextet, so the table lookup is in range.\<close>

lemma sextet_bound:
  fixes s :: byte
  assumes "s AND 63 = s"
  shows "unat s < 64"
proof -
  have "s AND 63 \<le> 63" by (rule word_and_le1)
  then have "s \<le> 63" using assms by simp
  then have "unat s \<le> unat (63 :: byte)" by (simp add: word_le_nat_alt)
  then show ?thesis by simp
qed

lemma mask_s0: "drop_bit 2 (a::byte) AND 63 = drop_bit 2 a"
  by (rule byte_eqI) (simp_all add: bit_simps byte_high)

lemma mask_s1: "(push_bit 4 (a AND 3) OR drop_bit 4 b) AND 63 = push_bit 4 (a AND 3) OR drop_bit 4 (b::byte)"
  by (rule byte_eqI) (simp_all add: bit_simps byte_high)

lemma mask_s1': "push_bit 4 (a AND 3) AND 63 = push_bit 4 ((a::byte) AND 3)"
  by (rule byte_eqI) (simp_all add: bit_simps byte_high)

lemma mask_s2: "(push_bit 2 (b AND 15) OR drop_bit 6 c) AND 63 = push_bit 2 (b AND 15) OR drop_bit 6 (c::byte)"
  by (rule byte_eqI) (simp_all add: bit_simps byte_high)

lemma mask_s2': "push_bit 2 (b AND 15) AND 63 = push_bit 2 ((b::byte) AND 15)"
  by (rule byte_eqI) (simp_all add: bit_simps byte_high)

lemma mask_s3: "(c AND 63) AND 63 = (c::byte) AND 63"
  by (rule byte_eqI) (simp_all add: bit_simps byte_high)


text \<open>The decoder's shifts and masks undo the encoder's, byte by byte.\<close>

lemma byte0: "push_bit 2 (drop_bit 2 a AND 63) OR drop_bit 4 ((push_bit 4 (a AND 3) OR drop_bit 4 b) AND 48) = (a::byte)"
  by (rule byte_eqI) (simp_all add: bit_simps byte_high)

lemma byte0': "push_bit 2 (drop_bit 2 a AND 63) OR drop_bit 4 (push_bit 4 (a AND 3) AND 48) = (a::byte)"
  by (rule byte_eqI) (simp_all add: bit_simps byte_high)

lemma byte1: "push_bit 4 ((push_bit 4 (a AND 3) OR drop_bit 4 b) AND 15) OR drop_bit 2 ((push_bit 2 (b AND 15) OR drop_bit 6 c) AND 60) = (b::byte)"
  by (rule byte_eqI) (simp_all add: bit_simps byte_high)

lemma byte1': "push_bit 4 ((push_bit 4 (a AND 3) OR drop_bit 4 b) AND 15) OR drop_bit 2 (push_bit 2 (b AND 15) AND 60) = (b::byte)"
  by (rule byte_eqI) (simp_all add: bit_simps byte_high)

lemma byte2: "push_bit 6 ((push_bit 2 (b AND 15) OR drop_bit 6 c) AND 3) OR ((c AND 63) AND 63) = (c::byte)"
  by (rule byte_eqI) (simp_all add: bit_simps byte_high)


text \<open>The decoding table inverts the alphabet.\<close>

lemma unbase64_table: "map unbase64 table = map (\<lambda>n. Some (of_nat n)) [0..<64]"
  by code_simp

lemma unbase64_b64char:
  assumes "unat v < 64"
  shows "unbase64 (b64char v) = Some v"
proof -
  have len: "length table = 64" by (simp add: table_def)
  have "unbase64 (table ! unat v) = map unbase64 table ! unat v"
    using assms len by simp
  also have "\<dots> = Some (of_nat (unat v))"
    unfolding unbase64_table using assms by simp
  finally show ?thesis by (simp add: b64char_def)
qed

lemma b64char_not_pad:
  assumes "unat v < 64"
  shows "b64char v \<noteq> CHR ''=''"
  using unbase64_b64char [OF assms] by (auto simp add: unbase64_def)

lemma sextets_b64char:
  assumes "v AND 63 = v"
  shows "sextets (b64char v # cs) = v # sextets cs"
  using unbase64_b64char [OF sextet_bound [OF assms]] b64char_not_pad [OF sextet_bound [OF assms]]
  by simp

lemma sextets_pad: "sextets (CHR ''='' # cs) = []"
  by simp

lemmas sextets_encoded =
  sextets_b64char [OF mask_s0] sextets_b64char [OF mask_s1] sextets_b64char [OF mask_s1']
  sextets_b64char [OF mask_s2] sextets_b64char [OF mask_s2'] sextets_b64char [OF mask_s3]

lemma decode_groups_encode: "decode_groups (sextets (base64_encode bs)) = bs"
proof (induction bs rule: base64_encode.induct)
  case (1 a b c rest)
  then show ?case
    by (simp only: base64_encode.simps sextets_encoded decode_groups.simps byte0 byte1 byte2)
next
  case (2 a b)
  show ?case
    by (simp only: base64_encode.simps sextets_encoded sextets_pad decode_groups.simps byte0 byte1')
next
  case (3 a)
  show ?case
    by (simp only: base64_encode.simps sextets_encoded sextets_pad decode_groups.simps byte0')
next
  case 4
  show ?case by simp
qed

lemma base64_roundtrip: "base64_decode (base64_encode bs) = bs"
  by (simp add: base64_decode_def decode_groups_encode)

lemma encode_example: "base64_encode [255, 254, 0, 128] = ''//4AgA==''"
  by code_simp

lemma decode_example: "base64_decode ''AQID'' = [1, 2, 3]"
  by code_simp


section \<open>Text in the store\<close>

text \<open>
  Writing a document changes its \<open>valueString\<close> only; a string comes back as it was
  exactly when it is well formed, which every ASCII text is.
\<close>

lemma stored_fields:
  "name (stored d) = name d" "path (stored d) = path d"
  "valueBase64 (stored d) = valueBase64 d"
  "valueString (stored d) = map_option toWellFormed (valueString d)"
  by (simp_all add: stored_def)

lemma matches_stored: "matches f (stored d) = matches f d"
  by (cases f) (simp_all add: stored_fields)

lemma replacement_not_surrogate:
  "isHighSurrogate u \<or> isLowSurrogate u \<Longrightarrow> u \<noteq> 0xFFFD"
  by (auto simp add: isHighSurrogate_def isLowSurrogate_def)

lemma toWellFormed_fixed: "toWellFormed s = s \<longleftrightarrow> isWellFormed s"
proof (induction s rule: toWellFormed.induct)
  case 1
  show ?case by simp
next
  case (2 u)
  show ?case using replacement_not_surrogate [of u] by auto
next
  case (3 u v rest)
  then show ?case using replacement_not_surrogate [of u] by auto
qed

lemma ascii_unit: "unat (of_char c :: 16 word) < 256"
proof -
  have n: "(of_char c :: nat) < 256" by simp
  then have "(of_char c :: nat) < 65536" by linarith
  then have m: "(of_char c :: nat) mod 65536 = of_char c" by (rule mod_less)
  have "unat (of_nat (of_char c) :: 16 word) = (of_char c :: nat) mod 65536"
    by (simp add: unat_of_nat)
  with n m show ?thesis by (simp only: of_nat_of_char)
qed

lemma ascii_not_surrogate: "\<not> isHighSurrogate (of_char c) \<and> \<not> isLowSurrogate (of_char c)"
  using ascii_unit [of c] by (auto simp add: isHighSurrogate_def isLowSurrogate_def word_le_nat_alt)

lemma isWellFormed_no_surrogates:
  "\<forall>u\<in>set s. \<not> isHighSurrogate u \<and> \<not> isLowSurrogate u \<Longrightarrow> isWellFormed s"
  by (induction s rule: isWellFormed.induct) simp_all

lemma isWellFormed_ascii: "isWellFormed (ascii s)"
  by (rule isWellFormed_no_surrogates) (auto simp add: ascii_def ascii_not_surrogate)

lemma toWellFormed_ascii: "toWellFormed (ascii s) = ascii s"
  by (simp add: toWellFormed_fixed isWellFormed_ascii)

lemma lone_surrogate_example: "toWellFormed [0xD800, 0x78] = [0xFFFD, 0x78]"
  by (simp add: isHighSurrogate_def isLowSurrogate_def)

lemma surrogate_pair_example: "toWellFormed [0xD83D, 0xDE00, 0x78] = [0xD83D, 0xDE00, 0x78]"
  by (simp add: isHighSurrogate_def isLowSurrogate_def)


section \<open>The model calls\<close>

lemma required_Some: "k \<noteq> [] \<Longrightarrow> required msg (Some k) = Inr k"
  by (simp add: required_def)

lemma required_Inr: "required msg nm = Inr n \<Longrightarrow> nm = Some n \<and> n \<noteq> []"
  by (auto simp add: required_def split: option.splits if_splits)

lemma find_None_filter: "find P xs = None \<longleftrightarrow> filter P xs = []"
  by (induction xs) auto

lemma find_in_set: "find P xs = Some x \<Longrightarrow> x \<in> set xs \<and> P x"
  by (induction xs) (auto split: if_splits)


lemma find_wallet_update_hit:
  "matches f doc \<Longrightarrow> find (matches f) (wallet_update f doc c) = Some (stored doc)"
  by (induction c) (simp_all add: matches_stored)

lemma filter_wallet_update_hit:
  "matches f doc \<Longrightarrow>
   filter (matches f) (wallet_update f doc c) =
     (case filter (matches f) c of [] \<Rightarrow> [stored doc] | x # xs \<Rightarrow> stored doc # xs)"
  by (induction c) (simp_all add: matches_stored)

lemma filter_update_update:
  assumes "matches f d1" and "matches f d2"
  shows "filter (matches f) (wallet_update f d2 (wallet_update f d1 c)) =
           (case filter (matches f) c of [] \<Rightarrow> [stored d2] | x # xs \<Rightarrow> stored d2 # xs)"
  using assms by (simp add: filter_wallet_update_hit split: list.splits)

lemma set_wallet_update: "set (wallet_update f doc c) \<subseteq> insert (stored doc) (set c)"
  by (induction c) auto


lemma find_wallet_update_frame:
  assumes "\<not> P (stored doc)" and "\<And>d. matches f d \<Longrightarrow> \<not> P d"
  shows "find P (wallet_update f doc c) = find P c"
  using assms by (induction c) auto


lemma find_wallet_remove_frame:
  assumes "\<And>d. matches f d \<Longrightarrow> \<not> P d"
  shows "find P (wallet_remove f c) = find P c"
  unfolding wallet_remove_def using assms by (induction c) auto


section \<open>Reads and writes\<close>

text \<open>\<open>get\<close> returns the collection it was given.\<close>

lemma get_snd: "snd (get this nm c) = c"
  by (simp add: get_def split: sum.splits option.splits)

lemma get_pair: "get this nm c = (fst (get this nm c), c)"
  using get_snd [of this nm c] by (cases "get this nm c") simp

lemma put_accepts:
  assumes "k \<noteq> []" and "isBuffer v \<or> isString v"
  shows "\<exists>doc. put this (Some k) v c
              = (Inr (), wallet_update (NameAndPath k (this_namePrefix this)) doc c)
           \<and> name doc = k \<and> path doc = this_namePrefix this \<and> holds (stored doc) v"
proof (cases v)
  case (JBuffer b)
  show ?thesis
    by (rule exI [of _ "\<lparr> name = k, path = this_namePrefix this,
                          valueBase64 = Some (base64_encode b), valueString = None \<rparr>"])
       (use assms JBuffer in \<open>simp add: put_def required_Some stored_fields\<close>)
next
  case (JString s)
  show ?thesis
    by (rule exI [of _ "\<lparr> name = k, path = this_namePrefix this,
                          valueBase64 = None, valueString = Some s \<rparr>"])
       (use assms JString in \<open>simp add: put_def required_Some stored_fields\<close>)
next
  case (JStringObject s)
  show ?thesis
    by (rule exI [of _ "\<lparr> name = k, path = this_namePrefix this,
                          valueBase64 = None, valueString = Some s \<rparr>"])
       (use assms JStringObject in \<open>simp add: put_def required_Some stored_fields\<close>)
qed (use assms in \<open>simp_all add: isBuffer_def isString_def\<close>)

lemma get_of_held_doc:
  assumes "k \<noteq> []"
    and "wallet_findOne (NameAndPath k (this_namePrefix this)) c = Some doc"
    and "holds doc v"
  shows "get this (Some k) c = (Inr (read_back v), c)"
  using assms by (cases v) (simp_all add: get_def required_Some base64_roundtrip)

text \<open>A write to another key, or under another prefix, leaves the lookup of a key as it was.\<close>

lemma perform_frame:
  assumes "\<not> writes_key op k p"
  shows "wallet_findOne (NameAndPath k p) (perform op c) = wallet_findOne (NameAndPath k p) c"
proof (cases op)
  case (Put w nm v)
  show ?thesis
  proof (cases "required ''Name must be specified'' nm")
    case (Inl e)
    then show ?thesis using Put by (simp add: put_def)
  next
    case (Inr n)
    then have nm: "nm = Some n" by (simp add: required_Inr)
    with assms Put have ne: "\<not> (n = k \<and> this_namePrefix w = p)" by auto
    have fr: "find (matches (NameAndPath k p))
                (wallet_update (NameAndPath n (this_namePrefix w)) doc c)
              = find (matches (NameAndPath k p)) c"
      if "name doc = n" "path doc = this_namePrefix w" for doc
      by (rule find_wallet_update_frame) (use ne that in \<open>auto simp add: stored_fields\<close>)
    show ?thesis
      using Put Inr by (cases v) (simp_all add: put_def wallet_findOne_def fr)
  qed
next
  case (Remove w nm)
  show ?thesis
  proof (cases "required ''Name must be specified'' nm")
    case (Inl e)
    then show ?thesis using Remove by (simp add: remove_def)
  next
    case (Inr n)
    then have nm: "nm = Some n" by (simp add: required_Inr)
    with assms Remove have ne: "\<not> (n = k \<and> this_namePrefix w = p)" by auto
    have "find (matches (NameAndPath k p)) (wallet_remove (NameAndPath n (this_namePrefix w)) c)
          = find (matches (NameAndPath k p)) c"
      by (rule find_wallet_remove_frame) (use ne in auto)
    then show ?thesis
      using Remove Inr by (simp add: remove_def wallet_findOne_def)
  qed
qed

lemma fold_perform_frame:
  assumes "\<forall>op\<in>set ops. \<not> writes_key op k p"
  shows "wallet_findOne (NameAndPath k p) (fold perform ops c) = wallet_findOne (NameAndPath k p) c"
  using assms by (induction ops arbitrary: c) (simp_all add: perform_frame)







subsection \<open>The loop of getAll\<close>

lemma getAll_loop_snd: "snd (getAll_loop this keys acc c) = c"
proof (induction keys arbitrary: acc)
  case Nil
  show ?case by simp
next
  case (Cons key keys)
  show ?case
    using get_pair [of this "Some key" c] Cons.IH
    by (cases "fst (get this (Some key) c)") simp_all
qed


lemma getAll_loop_ok:
  assumes "\<forall>k\<in>set keys. \<exists>v. fst (get this (Some k) c) = Inr v"
  shows "\<exists>m. fst (getAll_loop this keys acc c) = Inr m
     \<and> (distinct (map fst acc) \<longrightarrow> distinct (map fst m))
     \<and> fst ` set m = fst ` set acc \<union> set keys
     \<and> (\<forall>k v. map_of m k = Some v \<longleftrightarrow>
           (if k \<in> set keys then fst (get this (Some k) c) = Inr v else map_of acc k = Some v))"
  using assms
proof (induction keys arbitrary: acc)
  case Nil
  show ?case by simp
next
  case (Cons key keys)
  from Cons.prems obtain v where v: "fst (get this (Some key) c) = Inr v" by auto
  then have step: "getAll_loop this (key # keys) acc c
      = getAll_loop this keys (AList.update key v acc) c"
    using get_pair [of this "Some key" c] by simp
  from Cons.prems have "\<forall>k\<in>set keys. \<exists>v. fst (get this (Some k) c) = Inr v" by simp
  from Cons.IH [OF this, of "AList.update key v acc"]
  obtain m where m: "fst (getAll_loop this keys (AList.update key v acc) c) = Inr m"
    "distinct (map fst (AList.update key v acc)) \<longrightarrow> distinct (map fst m)"
    "fst ` set m = fst ` set (AList.update key v acc) \<union> set keys"
    "\<forall>k w. map_of m k = Some w \<longleftrightarrow>
       (if k \<in> set keys then fst (get this (Some k) c) = Inr w
        else map_of (AList.update key v acc) k = Some w)"
    by blast
  have "distinct (map fst acc) \<longrightarrow> distinct (map fst m)"
    using m(2) by (simp add: AList.distinct_update)
  moreover have "fst ` set m = fst ` set acc \<union> set (key # keys)"
    using m(3) by (auto simp add: AList.dom_update)
  moreover have "\<forall>k w. map_of m k = Some w \<longleftrightarrow>
       (if k \<in> set (key # keys) then fst (get this (Some k) c) = Inr w else map_of acc k = Some w)"
    using m(4) v by (auto simp add: AList.update_conv')
  ultimately show ?case
    using m(1) step by simp
qed

lemma getAll_loop_fails:
  assumes "\<forall>k\<in>set ks1. \<exists>v. fst (get this (Some k) c) = Inr v"
    and "fst (get this (Some k) c) = Inl e"
  shows "fst (getAll_loop this (ks1 @ k # ks2) acc c) = Inl e"
  using assms(1)
proof (induction ks1 arbitrary: acc)
  case Nil
  show ?case
    using assms(2) get_pair [of this "Some k" c] by simp
next
  case (Cons key ks1)
  from Cons.prems obtain v where v: "fst (get this (Some key) c) = Inr v" by auto
  from Cons.prems have "\<forall>k\<in>set ks1. \<exists>v. fst (get this (Some k) c) = Inr v" by simp
  from Cons.IH [OF this] v show ?case
    using get_pair [of this "Some key" c] by simp
qed


section \<open>What the writes of the class keep\<close>

text \<open>
  Starting from the empty collection, whatever sequence of \<open>put\<close> and \<open>remove\<close> is
  made, by whatever instances: no two documents share name and path, and every listed
  name can be fetched.
\<close>

lemma unique_keys_find:
  "unique_keys c \<Longrightarrow> length (wallet_find (NameAndPath k p) c) \<le> 1"
  unfolding unique_keys_def wallet_find_def
proof (induction c)
  case Nil
  show ?case by simp
next
  case (Cons d ds)
  show ?case
  proof (cases "matches (NameAndPath k p) d")
    case True
    then have "(k, p) \<notin> set (map (\<lambda>d. (name d, path d)) ds)"
      using Cons.prems by auto
    then have "\<forall>x\<in>set ds. \<not> (name x = k \<and> path x = p)"
      by force
    with True show ?thesis by (simp add: filter_empty_conv)
  next
    case False
    with Cons show ?thesis by auto
  qed
qed

lemma keys_wallet_update:
  assumes "name doc = n" and "path doc = p"
  shows "set (map (\<lambda>d. (name d, path d)) (wallet_update (NameAndPath n p) doc c))
           = insert (n, p) (set (map (\<lambda>d. (name d, path d)) c))"
  using assms by (induction c) (auto simp add: stored_fields)

lemma unique_keys_wallet_update:
  assumes "name doc = n" and "path doc = p" and "unique_keys c"
  shows "unique_keys (wallet_update (NameAndPath n p) doc c)"
  using assms(3) unfolding unique_keys_def
proof (induction c)
  case Nil
  show ?case by simp
next
  case (Cons d ds)
  show ?case
  proof (cases "matches (NameAndPath n p) d")
    case True
    with Cons.prems assms(1,2) show ?thesis by (simp add: stored_fields)
  next
    case False
    have "(name d, path d) \<notin> set (map (\<lambda>d. (name d, path d)) (wallet_update (NameAndPath n p) doc ds))"
      using False Cons.prems by (simp only: keys_wallet_update [OF assms(1,2)]) auto
    with False Cons show ?thesis by auto
  qed
qed

lemma unique_keys_wallet_remove: "unique_keys c \<Longrightarrow> unique_keys (wallet_remove f c)"
  by (simp add: unique_keys_def wallet_remove_def distinct_map_filter)

lemma unique_keys_perform: "unique_keys c \<Longrightarrow> unique_keys (perform op c)"
proof (cases op)
  case (Put w nm v)
  assume u: "unique_keys c"
  show ?thesis
  proof (cases "required ''Name must be specified'' nm")
    case (Inl e)
    with u Put show ?thesis by (simp add: put_def)
  next
    case (Inr n)
    with u Put show ?thesis
      by (cases v) (simp_all add: put_def unique_keys_wallet_update)
  qed
next
  case (Remove w nm)
  assume u: "unique_keys c"
  with Remove show ?thesis
    by (simp add: remove_def unique_keys_wallet_remove split: sum.splits)
qed

lemma unique_keys_fold: "unique_keys c \<Longrightarrow> unique_keys (fold perform ops c)"
  by (induction ops arbitrary: c) (simp_all add: unique_keys_perform)

lemma unique_keys_reachable: "unique_keys (fold perform ops [])"
  by (rule unique_keys_fold) (simp add: unique_keys_def)

lemma has_value_stored: "has_value (stored d) = has_value d"
  by (simp add: has_value_def stored_fields)

lemma well_formed_perform: "well_formed c \<Longrightarrow> well_formed (perform op c)"
proof (cases op)
  case (Put w nm v)
  assume wf: "well_formed c"
  show ?thesis
  proof (cases "required ''Name must be specified'' nm")
    case (Inl e)
    with wf Put show ?thesis by (simp add: put_def)
  next
    case (Inr n)
    then have n: "n \<noteq> []" by (simp add: required_Inr)
    have "well_formed (wallet_update f doc c)" if "has_value doc" for f doc
      using wf that set_wallet_update [of f doc c]
      by (auto simp add: well_formed_def list_all_iff has_value_stored)
    then show ?thesis
      using Put Inr n wf by (cases v) (simp_all add: put_def has_value_def)
  qed
next
  case (Remove w nm)
  assume wf: "well_formed c"
  with Remove show ?thesis
    by (auto simp add: remove_def wallet_remove_def well_formed_def list_all_iff split: sum.splits)
qed

lemma well_formed_fold: "well_formed c \<Longrightarrow> well_formed (fold perform ops c)"
  by (induction ops arbitrary: c) (simp_all add: well_formed_perform)

lemma well_formed_reachable: "well_formed (fold perform ops [])"
  by (rule well_formed_fold) (simp add: well_formed_def)

lemma well_formed_get:
  assumes "well_formed c"
    and "k \<in> set (map name (wallet_find (PathOnly (this_namePrefix this)) c))"
  shows "\<exists>v. fst (get this (Some k) c) = Inr v"
proof -
  let ?f = "NameAndPath k (this_namePrefix this)"
  from assms(2) obtain d where d: "d \<in> set c" "name d = k" "path d = this_namePrefix this"
    by (auto simp add: wallet_find_def)
  then have "filter (matches ?f) c \<noteq> []"
    by (auto simp add: filter_empty_conv)
  then obtain d' where f: "find (matches ?f) c = Some d'"
    using find_None_filter [of "matches ?f" c] by (cases "find (matches ?f) c") auto
  from find_in_set [OF f] assms(1) have hv: "has_value d'"
    by (simp add: well_formed_def list_all_iff)
  from d assms(1) have k: "k \<noteq> []"
    by (auto simp add: well_formed_def list_all_iff has_value_def)
  show ?thesis
    using f hv k
    by (auto simp add: get_def required_Some wallet_findOne_def has_value_def split: option.splits)
qed


subsection \<open>The example instances\<close>

lemma walletAlpha_prefix: "this_namePrefix walletAlpha = ''alpha''"
  by (simp add: walletAlpha_def)

lemma walletBeta_prefix: "this_namePrefix walletBeta = ''beta''"
  by (simp add: walletBeta_def)


section \<open>Text round trip\<close>

text \<open>
  C1. A string does not always come back as it went in: the store keeps its text as
  UTF-8, so a surrogate without its partner comes back as U+FFFD.
\<close>

theorem put_get_string_counterexample:
  "fst (get walletAlpha (Some ''Batman'')
          (snd (put walletAlpha (Some ''Batman'') (JString [0xD800, 0x78]) [])))
     = Inr (JString [0xFFFD, 0x78])
   \<and> fst (get walletAlpha (Some ''Batman'')
          (snd (put walletAlpha (Some ''Batman'') (JString [0xD800, 0x78]) [])))
     \<noteq> Inr (JString [0xD800, 0x78])"
  by (simp add: put_def get_def required_def wallet_findOne_def stored_def
      isHighSurrogate_def isLowSurrogate_def)

text \<open>
  C1, as the code has it. For a non-empty name \<open>k\<close> and a string of text \<open>s\<close>
  (primitive or a wrapper object), \<open>put\<close> succeeds and leaves, as the document found for
  \<open>k\<close> under the prefix, one whose \<open>valueBase64\<close> is absent and whose \<open>valueString\<close> is
  the text as the store keeps it: \<open>s\<close> with each unpaired surrogate replaced by U+FFFD.
  \<open>get(k)\<close> then returns that text as a primitive string, also after any sequence of
  writes (by any instances) none of which is made for \<open>k\<close> under this prefix. For a
  primitive string, what comes back is \<open>s\<close> itself exactly when \<open>s\<close> has no unpaired
  surrogate.
\<close>

theorem put_get_string:
  assumes "k \<noteq> []"
    and "\<forall>op\<in>set ops. \<not> writes_key op k (this_namePrefix this)"
    and "v = JString s \<or> v = JStringObject s"
  shows "fst (put this (Some k) v c) = Inr ()
    \<and> wallet_findOne (NameAndPath k (this_namePrefix this)) (snd (put this (Some k) v c))
        = Some \<lparr> name = k, path = this_namePrefix this, valueBase64 = None,
                 valueString = Some (toWellFormed s) \<rparr>
    \<and> fst (get this (Some k) (fold perform ops (snd (put this (Some k) v c))))
        = Inr (JString (toWellFormed s))
    \<and> ((fst (get this (Some k) (fold perform ops (snd (put this (Some k) (JString s) c))))
          = Inr (JString s)) = isWellFormed s)"
proof -
  let ?f = "NameAndPath k (this_namePrefix this)"
  let ?doc = "\<lparr> name = k, path = this_namePrefix this, valueBase64 = None, valueString = Some s \<rparr>"
  let ?kept = "\<lparr> name = k, path = this_namePrefix this, valueBase64 = None,
                 valueString = Some (toWellFormed s) \<rparr>"
  have kept: "stored ?doc = ?kept"
    by (simp add: stored_def)
  have p: "put this (Some k) v' c = (Inr (), wallet_update ?f ?doc c)"
    if "v' = JString s \<or> v' = JStringObject s" for v'
    using assms(1) that by (auto simp add: put_def required_Some)
  have f: "wallet_findOne ?f (wallet_update ?f ?doc c) = Some ?kept"
    by (simp add: wallet_findOne_def find_wallet_update_hit kept)
  have "wallet_findOne ?f (fold perform ops (wallet_update ?f ?doc c)) = Some ?kept"
    using fold_perform_frame [OF assms(2)] f by simp
  then have g: "fst (get this (Some k) (fold perform ops (wallet_update ?f ?doc c)))
      = Inr (JString (toWellFormed s))"
    using assms(1) by (simp add: get_def required_Some)
  show ?thesis
    using p [OF assms(3)] p [of "JString s"] f g by (simp add: toWellFormed_fixed)
qed

theorem put_get_string_witness:
  "''Batman'' \<noteq> []
   \<and> \<not> writes_key (Put walletAlpha (Some ''Robin'') (JString (ascii ''x''))) ''Batman'' ''alpha''
   \<and> \<not> writes_key (Remove walletBeta (Some ''Batman'')) ''Batman'' ''alpha''
   \<and> fst (get walletAlpha (Some ''Batman'')
            (fold perform
               [Put walletAlpha (Some ''Robin'') (JString (ascii ''x'')),
                Remove walletBeta (Some ''Batman'')]
               (snd (put walletAlpha (Some ''Batman'')
                       (JString (ascii ''Breathe in your fears.'')) []))))
       = Inr (JString (ascii ''Breathe in your fears.''))
   \<and> fst (get walletAlpha (Some ''Batman'')
            (fold perform []
               (snd (put walletAlpha (Some ''Batman'') (JStringObject [0xD83D, 0xDE00, 0xDC00]) []))))
       = Inr (JString [0xD83D, 0xDE00, 0xFFFD])"
  using put_get_string [of "''Batman''"
      "[Put walletAlpha (Some ''Robin'') (JString (ascii ''x'')),
        Remove walletBeta (Some ''Batman'')]"
      "walletAlpha" "JString (ascii ''Breathe in your fears.'')" "ascii ''Breathe in your fears.''" "[]"]
    put_get_string [of "''Batman''" "[]" "walletAlpha" "JStringObject [0xD83D, 0xDE00, 0xDC00]"
      "[0xD83D, 0xDE00, 0xDC00]" "[]"]
  by (simp add: walletAlpha_prefix walletBeta_prefix toWellFormed_ascii
      isHighSurrogate_def isLowSurrogate_def)


section \<open>Binary round trip\<close>

text \<open>
  C2. For a non-empty name \<open>k\<close> and a buffer \<open>b\<close> of any bytes, \<open>put(k, b)\<close> succeeds
  and leaves, as the document found for \<open>k\<close> under the prefix, one whose
  \<open>valueBase64\<close> is the base64 text of \<open>b\<close> and whose \<open>valueString\<close> is absent;
  \<open>get(k)\<close> then decodes it and returns a buffer of exactly the bytes of \<open>b\<close>, also
  after any sequence of writes none of which is made for \<open>k\<close> under this prefix. The
  example has bytes that are not UTF-8.
\<close>

theorem put_get_buffer:
  assumes "k \<noteq> []"
    and "\<forall>op\<in>set ops. \<not> writes_key op k (this_namePrefix this)"
  shows "fst (put this (Some k) (JBuffer b) c) = Inr ()
    \<and> wallet_findOne (NameAndPath k (this_namePrefix this)) (snd (put this (Some k) (JBuffer b) c))
        = Some \<lparr> name = k, path = this_namePrefix this,
                 valueBase64 = Some (base64_encode b), valueString = None \<rparr>
    \<and> fst (get this (Some k) (fold perform ops (snd (put this (Some k) (JBuffer b) c))))
        = Inr (JBuffer b)"
proof -
  let ?f = "NameAndPath k (this_namePrefix this)"
  let ?doc = "\<lparr> name = k, path = this_namePrefix this,
                valueBase64 = Some (base64_encode b), valueString = None \<rparr>"
  have p: "put this (Some k) (JBuffer b) c = (Inr (), wallet_update ?f ?doc c)"
    using assms(1) by (simp add: put_def required_Some)
  have f: "wallet_findOne ?f (wallet_update ?f ?doc c) = Some ?doc"
    by (simp add: wallet_findOne_def find_wallet_update_hit stored_def)
  have "wallet_findOne ?f (fold perform ops (wallet_update ?f ?doc c)) = Some ?doc"
    using fold_perform_frame [OF assms(2)] f by simp
  then have "fst (get this (Some k) (fold perform ops (wallet_update ?f ?doc c))) = Inr (JBuffer b)"
    using assms(1) by (simp add: get_def required_Some base64_roundtrip)
  with p f show ?thesis by simp
qed

theorem put_get_buffer_witness:
  "''zipFile'' \<noteq> []
   \<and> \<not> writes_key (Put walletAlpha (Some ''Robin'') (JString (ascii ''x''))) ''zipFile'' ''alpha''
   \<and> wallet_findOne (NameAndPath ''zipFile'' ''alpha'')
        (snd (put walletAlpha (Some ''zipFile'')
               (JBuffer [255, 254, 0, 128]) []))
       = Some \<lparr> name = ''zipFile'', path = ''alpha'',
                 valueBase64 = Some ''//4AgA=='', valueString = None \<rparr>
   \<and> fst (get walletAlpha (Some ''zipFile'')
            (fold perform
               [Put walletAlpha (Some ''Robin'') (JString (ascii ''x''))]
               (snd (put walletAlpha (Some ''zipFile'')
                       (JBuffer [255, 254, 0, 128]) []))))
       = Inr (JBuffer [255, 254, 0, 128])"
  using put_get_buffer [of "''zipFile''"
      "[Put walletAlpha (Some ''Robin'') (JString (ascii ''x''))]"
      "walletAlpha" "[255, 254, 0, 128]" "[]"]
  by (simp del: base64_encode.simps add: encode_example walletAlpha_prefix)


section \<open>Overwrite\<close>

text \<open>
  C3. After an overwrite with a string, \<open>get\<close> does not always return the second value
  itself: a surrogate without its partner comes back as U+FFFD.
\<close>

theorem put_put_overwrites_counterexample:
  "fst (get walletAlpha (Some ''Batman'')
          (snd (put walletAlpha (Some ''Batman'') (JString [0xD800, 0x78])
             (snd (put walletAlpha (Some ''Batman'') (JBuffer [1, 2, 3]) [])))))
     = Inr (JString [0xFFFD, 0x78])
   \<and> fst (get walletAlpha (Some ''Batman'')
          (snd (put walletAlpha (Some ''Batman'') (JString [0xD800, 0x78])
             (snd (put walletAlpha (Some ''Batman'') (JBuffer [1, 2, 3]) [])))))
     \<noteq> Inr (JString [0xD800, 0x78])"
  by (simp add: put_def get_def required_def wallet_findOne_def stored_def
      isHighSurrogate_def isLowSurrogate_def)

text \<open>
  C3, as the code has it. For a non-empty name \<open>k\<close> and two values that \<open>put\<close> accepts
  (each a buffer, a primitive string or a wrapper object), \<open>put(k, v1)\<close> and then
  \<open>put(k, v2)\<close> both succeed, and \<open>get(k)\<close> returns \<open>v2\<close> as the store keeps it: a buffer
  as it is, a string as the primitive string of its text with each unpaired surrogate
  replaced by U+FFFD. That is \<open>v2\<close> itself exactly when \<open>v2\<close> is a buffer or a primitive
  string without unpaired surrogates. When the collection held at most one document
  for \<open>k\<close> under the prefix before, it holds exactly one afterwards, and that document
  is the card of \<open>v2\<close> alone: its field for the other type is absent. Every collection
  that writes of the class build from the empty one holds at most one document for
  \<open>k\<close> under the prefix.
\<close>

theorem put_put_overwrites:
  assumes "k \<noteq> []" and "isBuffer v1 \<or> isString v1" and "isBuffer v2 \<or> isString v2"
  shows "fst (put this (Some k) v1 c) = Inr ()
    \<and> fst (put this (Some k) v2 (snd (put this (Some k) v1 c))) = Inr ()
    \<and> get this (Some k) (snd (put this (Some k) v2 (snd (put this (Some k) v1 c))))
        = (Inr (read_back v2), snd (put this (Some k) v2 (snd (put this (Some k) v1 c))))
    \<and> ((read_back v2 = v2) = (isBuffer v2 \<or> (\<exists>s. v2 = JString s \<and> isWellFormed s)))
    \<and> (length (wallet_find (NameAndPath k (this_namePrefix this)) c) \<le> 1 \<longrightarrow>
         (\<exists>doc. wallet_find (NameAndPath k (this_namePrefix this))
                  (snd (put this (Some k) v2 (snd (put this (Some k) v1 c)))) = [doc]
            \<and> name doc = k \<and> path doc = this_namePrefix this
            \<and> holds doc v2
            \<and> (valueBase64 doc = None) \<noteq> (valueString doc = None)))
    \<and> (\<forall>ops. length (wallet_find (NameAndPath k (this_namePrefix this)) (fold perform ops [])) \<le> 1)"
proof -
  let ?f = "NameAndPath k (this_namePrefix this)"
  have reach: "length (wallet_find ?f (fold perform ops [])) \<le> 1" for ops
    by (rule unique_keys_find [OF unique_keys_reachable])
  obtain d1 where p1: "put this (Some k) v1 c = (Inr (), wallet_update ?f d1 c)"
    and m1: "name d1 = k" "path d1 = this_namePrefix this"
    using put_accepts [OF assms(1,2), of this c] by blast
  obtain d2 where p2: "put this (Some k) v2 (wallet_update ?f d1 c)
        = (Inr (), wallet_update ?f d2 (wallet_update ?f d1 c))"
    and m2: "name d2 = k" "path d2 = this_namePrefix this"
    and enc: "holds (stored d2) v2"
    using put_accepts [OF assms(1,3), of this "wallet_update ?f d1 c"] by blast
  let ?c2 = "wallet_update ?f d2 (wallet_update ?f d1 c)"
  have hit: "wallet_findOne ?f ?c2 = Some (stored d2)"
    using m2 by (simp add: wallet_findOne_def find_wallet_update_hit)
  have g: "get this (Some k) ?c2 = (Inr (read_back v2), ?c2)"
    by (rule get_of_held_doc [OF assms(1) hit enc])
  have same: "(read_back v2 = v2) = (isBuffer v2 \<or> (\<exists>s. v2 = JString s \<and> isWellFormed s))"
    using assms(3) by (cases v2) (simp_all add: isBuffer_def isString_def toWellFormed_fixed)
  have one_field: "(valueBase64 (stored d2) = None) \<noteq> (valueString (stored d2) = None)"
    using enc by (cases v2) simp_all
  have one: "wallet_find ?f ?c2 = [stored d2]" if "length (wallet_find ?f c) \<le> 1"
  proof -
    have "filter (matches ?f) ?c2
        = (case filter (matches ?f) c of [] \<Rightarrow> [stored d2] | x # xs \<Rightarrow> stored d2 # xs)"
      by (rule filter_update_update) (use m1 m2 in simp_all)
    with that show ?thesis
      by (cases "filter (matches ?f) c") (simp_all add: wallet_find_def)
  qed
  have doc: "\<exists>doc. wallet_find ?f ?c2 = [doc] \<and> name doc = k \<and> path doc = this_namePrefix this
      \<and> holds doc v2 \<and> (valueBase64 doc = None) \<noteq> (valueString doc = None)"
    if "length (wallet_find ?f c) \<le> 1"
    using one [OF that] m2 enc one_field by (simp add: stored_fields)
  show ?thesis
    using p1 p2 g same doc reach by simp
qed

theorem put_put_overwrites_witness:
  "''Batman'' \<noteq> []
   \<and> length (wallet_find (NameAndPath ''Batman'' ''alpha'')
        [\<lparr> name = ''Batman'', path = ''beta'', valueBase64 = None, valueString = Some (ascii ''other'') \<rparr>]) \<le> 1
   \<and> wallet_find (NameAndPath ''Batman'' ''alpha'')
        (snd (put walletAlpha (Some ''Batman'') (JString (ascii ''quoteB''))
          (snd (put walletAlpha (Some ''Batman'') (JBuffer [1, 2, 3])
            [\<lparr> name = ''Batman'', path = ''beta'', valueBase64 = None, valueString = Some (ascii ''other'') \<rparr>]))))
       = [\<lparr> name = ''Batman'', path = ''alpha'', valueBase64 = None, valueString = Some (ascii ''quoteB'') \<rparr>]
   \<and> fst (get walletAlpha (Some ''Batman'')
        (snd (put walletAlpha (Some ''Batman'') (JString (ascii ''quoteB''))
          (snd (put walletAlpha (Some ''Batman'') (JBuffer [1, 2, 3])
            [\<lparr> name = ''Batman'', path = ''beta'', valueBase64 = None, valueString = Some (ascii ''other'') \<rparr>])))))
       = Inr (JString (ascii ''quoteB''))"
  using put_put_overwrites [of "''Batman''" "JBuffer [1, 2, 3]" "JString (ascii ''quoteB'')" walletAlpha
      "[\<lparr> name = ''Batman'', path = ''beta'', valueBase64 = None, valueString = Some (ascii ''other'') \<rparr>]"]
  by (auto simp add: isBuffer_def isString_def walletAlpha_prefix wallet_find_def toWellFormed_ascii)


section \<open>Rejection of other types\<close>

text \<open>
  C4. The message of the rejection is spelled \<open>Unkown type being stored\<close> in the code
  (and in the test that asserts it), not \<open>Unknown type being stored\<close>:
\<close>

theorem put_unknown_type_message_counterexample:
  "fst (put walletAlpha (Some ''ThePenguin'') (JObject ''Umbrella'') [])
     = Inl (Error ''Unkown type being stored'')
   \<and> fst (put walletAlpha (Some ''ThePenguin'') (JObject ''Umbrella'') [])
     \<noteq> Inl (Error ''Unknown type being stored'')"
  by (simp add: put_def required_def)


text \<open>
  C4, as the code has it. For a non-empty name and a value that is neither a buffer nor
  a string, \<open>put\<close> is rejected with the error \<open>Unkown type being stored\<close> and the
  collection is what it was.
\<close>

theorem put_rejects_other_types:
  assumes "k \<noteq> []" and "\<not> isBuffer v" and "\<not> isString v"
  shows "put this (Some k) v c = (Inl (Error ''Unkown type being stored''), c)"
  using assms by (cases v) (simp_all add: put_def required_Some isBuffer_def isString_def)

theorem put_rejects_other_types_witness:
  "''ThePenguin'' \<noteq> [] \<and> \<not> isBuffer (JObject ''Umbrella'') \<and> \<not> isString (JObject ''Umbrella'')
   \<and> put walletAlpha (Some ''ThePenguin'') (JObject ''Umbrella'')
        [\<lparr> name = ''ThePenguin'', path = ''alpha'', valueBase64 = None, valueString = Some (ascii ''quack'') \<rparr>]
     = (Inl (Error ''Unkown type being stored''),
        [\<lparr> name = ''ThePenguin'', path = ''alpha'', valueBase64 = None, valueString = Some (ascii ''quack'') \<rparr>])"
  using put_rejects_other_types [of "''ThePenguin''" "JObject ''Umbrella''" walletAlpha
    "[\<lparr> name = ''ThePenguin'', path = ''alpha'', valueBase64 = None, valueString = Some (ascii ''quack'') \<rparr>]"]
  by (simp add: isBuffer_def isString_def)


section \<open>Isolation of prefixes\<close>




section \<open>getAll is listNames followed by get\<close>

text \<open>
  C6. With \<open>keys\<close> the names that \<open>listNames\<close> returns: \<open>getAll\<close> is the loop of one
  \<open>get\<close> per key, and it leaves the collection as it was. On the empty collection,
  and whenever no name is listed, it returns the empty map. When every \<open>get\<close>
  succeeds (as it does when every document has a name and a value field, which holds
  of every collection that writes of the class build from the empty one), the result
  has exactly the listed names as keys, each once, and maps each to what \<open>get\<close>
  returns for it. When the loop runs on a collection \<open>c'\<close> in which the \<open>get\<close> of a
  listed key fails after the keys before it succeeded, that error is the result; for a
  key that has no document in \<open>c'\<close> it is \<open>The specified key does not exist\<close>.
\<close>

theorem getAll_listNames_then_get:
  assumes "fst (listNames this c) = Inr keys"
  shows "getAll this c = getAll_loop this keys [] c
    \<and> snd (getAll this c) = c
    \<and> getAll this [] = (Inr [], [])
    \<and> (keys = [] \<longrightarrow> fst (getAll this c) = Inr [])
    \<and> ((\<forall>k\<in>set keys. \<exists>v. fst (get this (Some k) c) = Inr v) \<longrightarrow>
         (\<exists>m. fst (getAll this c) = Inr m \<and> distinct (map fst m) \<and> fst ` set m = set keys
            \<and> (\<forall>k v. map_of m k = Some v \<longleftrightarrow>
                  (k \<in> set keys \<and> fst (get this (Some k) c) = Inr v))))
    \<and> (well_formed c \<longrightarrow> (\<forall>k\<in>set keys. \<exists>v. fst (get this (Some k) c) = Inr v))
    \<and> (\<forall>ops. well_formed (fold perform ops []))
    \<and> (\<forall>ks1 k ks2 e c'.
          keys = ks1 @ k # ks2
          \<and> (\<forall>k'\<in>set ks1. \<exists>v. fst (get this (Some k') c') = Inr v)
          \<and> fst (get this (Some k) c') = Inl e
        \<longrightarrow> fst (getAll_loop this keys [] c') = Inl e)
    \<and> (\<forall>ks1 k ks2 c'.
          keys = ks1 @ k # ks2 \<and> k \<noteq> []
          \<and> (\<forall>k'\<in>set ks1. \<exists>v. fst (get this (Some k') c') = Inr v)
          \<and> wallet_find (NameAndPath k (this_namePrefix this)) c' = []
        \<longrightarrow> fst (getAll_loop this keys [] c') = Inl (Error ''The specified key does not exist''))"
proof -
  have keys: "keys = map name (wallet_find (PathOnly (this_namePrefix this)) c)"
    using assms by (simp add: listNames_def)
  have comp: "getAll this c = getAll_loop this keys [] c"
    by (simp add: getAll_def listNames_def keys)
  have unchanged: "snd (getAll this c) = c"
    by (simp add: comp getAll_loop_snd)
  have empty_store: "getAll this [] = (Inr [], [])"
    by (simp add: getAll_def listNames_def wallet_find_def)
  have no_keys: "fst (getAll this c) = Inr []" if "keys = []"
    using that by (simp add: comp)
  have mapping: "\<exists>m. fst (getAll this c) = Inr m \<and> distinct (map fst m) \<and> fst ` set m = set keys
            \<and> (\<forall>k v. map_of m k = Some v \<longleftrightarrow>
                  (k \<in> set keys \<and> fst (get this (Some k) c) = Inr v))"
    if ok: "\<forall>k\<in>set keys. \<exists>v. fst (get this (Some k) c) = Inr v"
  proof -
    from getAll_loop_ok [OF ok, of "[]"]
    obtain m where m: "fst (getAll_loop this keys [] c) = Inr m" "distinct (map fst m)"
      "fst ` set m = set keys"
      "\<forall>k v. map_of m k = Some v \<longleftrightarrow>
         (if k \<in> set keys then fst (get this (Some k) c) = Inr v else map_of [] k = Some v)"
      by auto
    from m(4) have "\<forall>k v. map_of m k = Some v \<longleftrightarrow>
         (k \<in> set keys \<and> fst (get this (Some k) c) = Inr v)"
      by simp
    with m(1,2,3) show ?thesis by (simp add: comp)
  qed
  have wf: "\<forall>k\<in>set keys. \<exists>v. fst (get this (Some k) c) = Inr v" if "well_formed c"
    using well_formed_get [OF that, of _ this] by (simp add: keys)
  have fails: "fst (getAll_loop this keys [] c') = Inl e"
    if "keys = ks1 @ k # ks2" "\<forall>k'\<in>set ks1. \<exists>v. fst (get this (Some k') c') = Inr v"
      "fst (get this (Some k) c') = Inl e" for ks1 k ks2 e c'
    using getAll_loop_fails [OF that(2,3)] that(1) by simp
  have missing: "fst (getAll_loop this keys [] c') = Inl (Error ''The specified key does not exist'')"
    if "keys = ks1 @ k # ks2" "k \<noteq> []"
      "\<forall>k'\<in>set ks1. \<exists>v. fst (get this (Some k') c') = Inr v"
      "wallet_find (NameAndPath k (this_namePrefix this)) c' = []" for ks1 k ks2 c'
  proof -
    have "wallet_findOne (NameAndPath k (this_namePrefix this)) c' = None"
      using that(4) by (simp add: wallet_findOne_def wallet_find_def find_None_filter)
    then have "fst (get this (Some k) c') = Inl (Error ''The specified key does not exist'')"
      using that(2) by (simp add: get_def required_Some)
    from fails [OF that(1,3) this] show ?thesis .
  qed
  show ?thesis
  proof (intro conjI impI allI)
    show "getAll this c = getAll_loop this keys [] c" by (rule comp)
    show "snd (getAll this c) = c" by (rule unchanged)
    show "getAll this [] = (Inr [], [])" by (rule empty_store)
    show "fst (getAll this c) = Inr []" if "keys = []" by (rule no_keys [OF that])
    show "\<exists>m. fst (getAll this c) = Inr m \<and> distinct (map fst m) \<and> fst ` set m = set keys
            \<and> (\<forall>k v. map_of m k = Some v \<longleftrightarrow>
                  (k \<in> set keys \<and> fst (get this (Some k) c) = Inr v))"
      if "\<forall>k\<in>set keys. \<exists>v. fst (get this (Some k) c) = Inr v"
      by (rule mapping [OF that])
    show "\<forall>k\<in>set keys. \<exists>v. fst (get this (Some k) c) = Inr v" if "well_formed c"
      by (rule wf [OF that])
    show "well_formed (fold perform ops [])" for ops
      by (rule well_formed_reachable)
    show "fst (getAll_loop this keys [] c') = Inl e"
      if "keys = ks1 @ k # ks2 \<and> (\<forall>k'\<in>set ks1. \<exists>v. fst (get this (Some k') c') = Inr v)
          \<and> fst (get this (Some k) c') = Inl e" for ks1 k ks2 e c'
      using fails [of ks1 k ks2 c' e] that by blast
    show "fst (getAll_loop this keys [] c') = Inl (Error ''The specified key does not exist'')"
      if "keys = ks1 @ k # ks2 \<and> k \<noteq> []
          \<and> (\<forall>k'\<in>set ks1. \<exists>v. fst (get this (Some k') c') = Inr v)
          \<and> wallet_find (NameAndPath k (this_namePrefix this)) c' = []" for ks1 k ks2 c'
      using missing [of ks1 k ks2 c'] that by blast
  qed
qed

theorem getAll_listNames_then_get_witness:
  "fst (listNames walletAlpha twoQuotes) = Inr [''Batman-Original'', ''Batman-Reloaded'']
   \<and> well_formed twoQuotes
   \<and> getAll walletAlpha twoQuotes
       = (Inr [(''Batman-Original'', JString (ascii ''Breathe'')), (''Batman-Reloaded'', JBuffer [1, 2, 3])],
          twoQuotes)
   \<and> wallet_find (NameAndPath ''Batman-Reloaded'' ''alpha'')
        (snd (remove walletAlpha (Some ''Batman-Reloaded'') twoQuotes)) = []
   \<and> fst (getAll_loop walletAlpha [''Batman-Original'', ''Batman-Reloaded''] []
        (snd (remove walletAlpha (Some ''Batman-Reloaded'') twoQuotes)))
       = Inl (Error ''The specified key does not exist'')"
proof -
  let ?keys = "[''Batman-Original'', ''Batman-Reloaded'']"
  let ?c' = "snd (remove walletAlpha (Some ''Batman-Reloaded'') twoQuotes)"
  have listed: "fst (listNames walletAlpha twoQuotes) = Inr ?keys"
    by (simp add: listNames_def wallet_find_def twoQuotes_def walletAlpha_prefix)
  note t = getAll_listNames_then_get [OF listed]
  have wf: "well_formed twoQuotes"
    by (simp add: well_formed_def has_value_def twoQuotes_def)
  have c': "?c' = [\<lparr> name = ''Batman-Original'', path = ''alpha'', valueBase64 = None, valueString = Some (ascii ''Breathe'') \<rparr>,
      \<lparr> name = ''Batman-Original'', path = ''beta'', valueBase64 = None, valueString = Some (ascii ''other'') \<rparr>]"
    by (simp add: remove_def required_def wallet_remove_def twoQuotes_def walletAlpha_prefix)
  have gone: "wallet_find (NameAndPath ''Batman-Reloaded'' (this_namePrefix walletAlpha)) ?c' = []"
    by (simp add: c' wallet_find_def)
  have first: "\<forall>k'\<in>set [''Batman-Original'']. \<exists>v. fst (get walletAlpha (Some k') ?c') = Inr v"
    by (simp add: c' get_def required_def wallet_findOne_def walletAlpha_prefix)
  have split: "?keys = [''Batman-Original''] @ ''Batman-Reloaded'' # []"
    by simp
  have ne: "''Batman-Reloaded'' \<noteq> []"
    by simp
  have race: "fst (getAll_loop walletAlpha ?keys [] ?c') = Inl (Error ''The specified key does not exist'')"
    using t [THEN conjunct2, THEN conjunct2, THEN conjunct2, THEN conjunct2, THEN conjunct2,
        THEN conjunct2, THEN conjunct2, THEN conjunct2, rule_format, of "[''Batman-Original'']" "''Batman-Reloaded''" "[]" ?c']
      split ne first gone
    by blast
  have all: "getAll walletAlpha twoQuotes
       = (Inr [(''Batman-Original'', JString (ascii ''Breathe'')), (''Batman-Reloaded'', JBuffer [1, 2, 3])],
          twoQuotes)"
    by (subst t [THEN conjunct1])
       (simp add: get_def required_def wallet_findOne_def twoQuotes_def
          walletAlpha_prefix decode_example)
  from listed wf all gone race show ?thesis
    by (simp add: walletAlpha_prefix)
qed


section \<open>get of an absent key\<close>

text \<open>
  C7. For a non-empty name \<open>k\<close> with no document under the prefix, \<open>get(k)\<close> is rejected
  with the error \<open>The specified key does not exist\<close>, and the collection is what it
  was; \<open>get\<close> never changes the collection, whatever it returns.
\<close>

theorem get_absent_key:
  assumes "k \<noteq> []"
    and "wallet_find (NameAndPath k (this_namePrefix this)) c = []"
  shows "get this (Some k) c = (Inl (Error ''The specified key does not exist''), c)
    \<and> (\<forall>nm c'. snd (get this nm c') = c')"
proof -
  have "wallet_findOne (NameAndPath k (this_namePrefix this)) c = None"
    using assms(2) by (simp add: wallet_findOne_def wallet_find_def find_None_filter)
  then have "get this (Some k) c = (Inl (Error ''The specified key does not exist''), c)"
    using assms(1) by (simp add: get_def required_Some)
  then show ?thesis
    by (simp add: get_snd)
qed

theorem get_absent_key_witness:
  "''nonexistant'' \<noteq> []
   \<and> wallet_find (NameAndPath ''nonexistant'' ''alpha'')
       [\<lparr> name = ''nonexistant'', path = ''beta'', valueBase64 = None, valueString = Some (ascii ''b'') \<rparr>,
        \<lparr> name = ''IExist'', path = ''alpha'', valueBase64 = None, valueString = Some (ascii ''a'') \<rparr>] = []
   \<and> get walletAlpha (Some ''nonexistant'')
       [\<lparr> name = ''nonexistant'', path = ''beta'', valueBase64 = None, valueString = Some (ascii ''b'') \<rparr>,
        \<lparr> name = ''IExist'', path = ''alpha'', valueBase64 = None, valueString = Some (ascii ''a'') \<rparr>]
     = (Inl (Error ''The specified key does not exist''),
       [\<lparr> name = ''nonexistant'', path = ''beta'', valueBase64 = None, valueString = Some (ascii ''b'') \<rparr>,
        \<lparr> name = ''IExist'', path = ''alpha'', valueBase64 = None, valueString = Some (ascii ''a'') \<rparr>])"
  using get_absent_key [of "''nonexistant''" walletAlpha
       "[\<lparr> name = ''nonexistant'', path = ''beta'', valueBase64 = None, valueString = Some (ascii ''b'') \<rparr>,
        \<lparr> name = ''IExist'', path = ''alpha'', valueBase64 = None, valueString = Some (ascii ''a'') \<rparr>]"]
  by (simp add: walletAlpha_prefix wallet_find_def)


section \<open>remove is idempotent\<close>

text \<open>
  C8. For a non-empty name \<open>k\<close>, \<open>remove(k)\<close> succeeds; afterwards no document matches
  \<open>k\<close> under the prefix and every other document is where it was. When no document
  matched, the collection is unchanged, and a second \<open>remove(k)\<close> succeeds and changes
  nothing.
\<close>

theorem remove_idempotent:
  assumes "k \<noteq> []"
  shows "fst (remove this (Some k) c) = Inr ()
    \<and> wallet_find (NameAndPath k (this_namePrefix this)) (snd (remove this (Some k) c)) = []
    \<and> filter (\<lambda>d. \<not> matches (NameAndPath k (this_namePrefix this)) d) (snd (remove this (Some k) c))
        = filter (\<lambda>d. \<not> matches (NameAndPath k (this_namePrefix this)) d) c
    \<and> (wallet_find (NameAndPath k (this_namePrefix this)) c = [] \<longrightarrow>
         remove this (Some k) c = (Inr (), c))
    \<and> remove this (Some k) (snd (remove this (Some k) c)) = (Inr (), snd (remove this (Some k) c))"
proof -
  let ?f = "NameAndPath k (this_namePrefix this)"
  have r: "remove this (Some k) c' = (Inr (), wallet_remove ?f c')" for c'
    using assms by (simp add: remove_def required_Some)
  have gone: "wallet_find ?f (wallet_remove ?f c) = []"
    by (simp add: wallet_find_def wallet_remove_def)
  have rest: "filter (\<lambda>d. \<not> matches ?f d) (wallet_remove ?f c) = filter (\<lambda>d. \<not> matches ?f d) c"
    by (simp add: wallet_remove_def)
  have absent: "wallet_remove ?f c = c" if "wallet_find ?f c = []"
    using that by (simp add: wallet_find_def wallet_remove_def filter_empty_conv filter_id_conv)
  have twice: "wallet_remove ?f (wallet_remove ?f c) = wallet_remove ?f c"
    by (simp add: wallet_remove_def)
  show ?thesis
    using gone rest absent twice by (simp add: r)
qed

theorem remove_idempotent_witness:
  "''nonexistant'' \<noteq> []
   \<and> wallet_find (NameAndPath ''nonexistant'' ''alpha'')
       [\<lparr> name = ''IExist'', path = ''alpha'', valueBase64 = None, valueString = Some (ascii ''a'') \<rparr>] = []
   \<and> remove walletAlpha (Some ''nonexistant'')
       [\<lparr> name = ''IExist'', path = ''alpha'', valueBase64 = None, valueString = Some (ascii ''a'') \<rparr>]
     = (Inr (), [\<lparr> name = ''IExist'', path = ''alpha'', valueBase64 = None, valueString = Some (ascii ''a'') \<rparr>])
   \<and> remove walletAlpha (Some ''IExist'')
       [\<lparr> name = ''IExist'', path = ''alpha'', valueBase64 = None, valueString = Some (ascii ''a'') \<rparr>]
     = (Inr (), [])"
  using remove_idempotent [of "''nonexistant''" walletAlpha
       "[\<lparr> name = ''IExist'', path = ''alpha'', valueBase64 = None, valueString = Some (ascii ''a'') \<rparr>]"]
    remove_idempotent [of "''IExist''" walletAlpha
       "[\<lparr> name = ''IExist'', path = ''alpha'', valueBase64 = None, valueString = Some (ascii ''a'') \<rparr>]"]
  by (simp add: walletAlpha_prefix wallet_find_def remove_def required_def wallet_remove_def)


section \<open>Construction validates in a fixed order\<close>

text \<open>
  C9. Construction checks, in this order and each with its own message: the options
  object (\<open>Need configuration\<close>), the URI (\<open>Need an URI to connect to MongoDB\<close>), the
  collection name (\<open>Need a collection name for the wallet\<close>), the name prefix
  (\<open>Need a namePrefix in options\<close>); a later check is reached only when the earlier
  ones passed, and an earlier one fails whatever the later properties hold. With all
  four present construction succeeds and the instance carries the options and the
  prefix. "Missing" is JavaScript's \<open>!x\<close>: absent or the empty string.
\<close>

theorem constructor_validation_order:
  "constructor None = Inl (Error ''Need configuration'')
   \<and> (falsy (uri opts) \<longrightarrow>
        constructor (Some opts) = Inl (Error ''Need an URI to connect to MongoDB''))
   \<and> (\<not> falsy (uri opts) \<and> falsy (collectionName opts) \<longrightarrow>
        constructor (Some opts) = Inl (Error ''Need a collection name for the wallet''))
   \<and> (\<not> falsy (uri opts) \<and> \<not> falsy (collectionName opts) \<and> falsy (namePrefix opts) \<longrightarrow>
        constructor (Some opts) = Inl (Error ''Need a namePrefix in options''))
   \<and> (\<not> falsy (uri opts) \<and> \<not> falsy (collectionName opts) \<and> \<not> falsy (namePrefix opts) \<longrightarrow>
        (\<exists>p. namePrefix opts = Some p
           \<and> constructor (Some opts) = Inr \<lparr> mongodbConfig = opts, this_namePrefix = p \<rparr>))
   \<and> distinct [''Need configuration'', ''Need an URI to connect to MongoDB'',
                ''Need a collection name for the wallet'', ''Need a namePrefix in options'']"
  by (auto simp add: constructor_def required_def falsy_def split: option.splits)

theorem constructor_validation_order_witness:
  "constructor (Some \<lparr> uri = None, collectionName = Some ''testWallet'',
                       namePrefix = Some ''alpha'', driverOptions = [] \<rparr>)
     = Inl (Error ''Need an URI to connect to MongoDB'')
   \<and> constructor (Some \<lparr> uri = Some ''mongodb://localhost:27017/w'', collectionName = Some [],
                       namePrefix = None, driverOptions = [] \<rparr>)
     = Inl (Error ''Need a collection name for the wallet'')
   \<and> constructor (Some \<lparr> uri = Some ''mongodb://localhost:27017/w'',
                       collectionName = Some ''testWallet'',
                       namePrefix = None, driverOptions = [] \<rparr>)
     = Inl (Error ''Need a namePrefix in options'')
   \<and> constructor (Some \<lparr> uri = Some ''mongodb://localhost:27017/w'',
                       collectionName = Some ''testWallet'',
                       namePrefix = Some ''alpha'', driverOptions = [] \<rparr>)
     = Inr \<lparr> mongodbConfig = \<lparr> uri = Some ''mongodb://localhost:27017/w'',
                                collectionName = Some ''testWallet'',
                                namePrefix = Some ''alpha'', driverOptions = [] \<rparr>,
             this_namePrefix = ''alpha'' \<rparr>"
  using
    constructor_validation_order [of "\<lparr> uri = None, collectionName = Some ''testWallet'',
                       namePrefix = Some ''alpha'', driverOptions = [] \<rparr>"]
    constructor_validation_order [of "\<lparr> uri = Some ''mongodb://localhost:27017/w'',
                       collectionName = Some [], namePrefix = None, driverOptions = [] \<rparr>"]
    constructor_validation_order [of "\<lparr> uri = Some ''mongodb://localhost:27017/w'',
                       collectionName = Some ''testWallet'',
                       namePrefix = None, driverOptions = [] \<rparr>"]
    constructor_validation_order [of "\<lparr> uri = Some ''mongodb://localhost:27017/w'',
                       collectionName = Some ''testWallet'',
                       namePrefix = Some ''alpha'', driverOptions = [] \<rparr>"]
  by (simp add: falsy_def)


section \<open>Binary takes precedence in get\<close>

text \<open>
  C10. For a non-empty name whose document has a \<open>valueBase64\<close> field, \<open>get\<close> returns
  the decoded bytes of that field, whatever \<open>valueString\<close> holds; and \<open>get\<close> ends in its
  last branch (the error spelled \<open>Unkown type being stored\<close>) exactly when the
  document found has neither field.
\<close>

theorem get_binary_precedence:
  assumes "k \<noteq> []"
  shows "(\<forall>d b. wallet_findOne (NameAndPath k (this_namePrefix this)) c = Some d
            \<and> valueBase64 d = Some b
          \<longrightarrow> get this (Some k) c = (Inr (JBuffer (base64_decode b)), c))
    \<and> (fst (get this (Some k) c) = Inl (Error ''Unkown type being stored'')
        \<longleftrightarrow> (\<exists>d. wallet_findOne (NameAndPath k (this_namePrefix this)) c = Some d
                  \<and> valueBase64 d = None \<and> valueString d = None))"
  using assms by (auto simp add: get_def required_Some split: option.splits)

theorem get_binary_precedence_witness:
  "''Batman'' \<noteq> []
   \<and> wallet_findOne (NameAndPath ''Batman'' ''alpha'')
        [\<lparr> name = ''Batman'', path = ''alpha'', valueBase64 = Some ''AQID'', valueString = Some (ascii ''quoteA'') \<rparr>]
      = Some \<lparr> name = ''Batman'', path = ''alpha'', valueBase64 = Some ''AQID'', valueString = Some (ascii ''quoteA'') \<rparr>
   \<and> get walletAlpha (Some ''Batman'')
        [\<lparr> name = ''Batman'', path = ''alpha'', valueBase64 = Some ''AQID'', valueString = Some (ascii ''quoteA'') \<rparr>]
      = (Inr (JBuffer [1, 2, 3]),
         [\<lparr> name = ''Batman'', path = ''alpha'', valueBase64 = Some ''AQID'', valueString = Some (ascii ''quoteA'') \<rparr>])
   \<and> fst (get walletAlpha (Some ''Batman'')
        [\<lparr> name = ''Batman'', path = ''alpha'', valueBase64 = None, valueString = None \<rparr>])
      = Inl (Error ''Unkown type being stored'')"
  using get_binary_precedence [of "''Batman''" walletAlpha
      "[\<lparr> name = ''Batman'', path = ''alpha'', valueBase64 = Some ''AQID'', valueString = Some (ascii ''quoteA'') \<rparr>]"]
    get_binary_precedence [of "''Batman''" walletAlpha
      "[\<lparr> name = ''Batman'', path = ''alpha'', valueBase64 = None, valueString = None \<rparr>]"]
  by (simp add: walletAlpha_prefix wallet_findOne_def decode_example)

end
